theory Spec2Isabelle
  imports Main "HOL-Library.AList"
begin

section \<open>A model of \<open>src/api/managed-records.js\<close>\<close>

text \<open>
  The module is JavaScript: values are dynamically typed, objects are mutated in place and
  every request is a promise. The model makes each of these explicit.

  \<^item> Numbers are doubles. The model follows the integers of magnitude up to \<open>2^53\<close>, on
    which the arithmetic of doubles is the arithmetic of integers, and \<open>NaN\<close>. Every other
    number that is supplied (a fraction, a larger integer, an infinity) is \<open>Inexact\<close>, and
    a result is \<open>Inexact\<close> whenever the model does not determine it: nothing is said of
    its value.
  \<^item> Values read from a response body are \<open>jsval\<close>: what \<open>JSON.parse\<close> produces, plus
    \<open>undefined\<close>. An array carries, besides its elements, the named properties the program
    attaches to it.
  \<^item> An exception is a value of \<open>js_error\<close>; a function that may throw returns
    \<open>js_error + 'a\<close>.
  \<^item> A promise is the state it finally takes: pending for ever, fulfilled with a value or
    rejected with an error.
  \<^item> The module is an ES module and therefore runs in strict mode.
  \<^item> The caller's options are an object (\<open>retrieve(null)\<close> throws before any promise
    exists and is outside the model), and what a collaborator rejects with is an \<open>Error\<close>
    object, so that a \<open>catch\<close> handler can read its \<open>message\<close>.
\<close>

subsection \<open>Values\<close>

datatype jsnum = Finite int | NaN | Inexact

text \<open>
  Every integer from \<open>-2^53\<close> to \<open>2^53\<close> is a double, and an operation on doubles whose
  exact result is a double returns that result. Beyond that range a result is rounded, and
  the model says \<open>Inexact\<close>; so it does for an operand that is itself out of range.
  \<open>NaN\<close> with any operand gives \<open>NaN\<close>. A number supplied as \<open>Inexact\<close> is neither 0
  nor \<open>NaN\<close>, so it is truthy.
\<close>

definition safe :: "int \<Rightarrow> bool" where
  "safe n = (\<bar>n\<bar> \<le> 9007199254740992)"

definition exactly :: "int \<Rightarrow> jsnum" where
  "exactly n = (if safe n then Finite n else Inexact)"

fun num_mul :: "jsnum \<Rightarrow> jsnum \<Rightarrow> jsnum" where
  "num_mul (Finite a) (Finite b) = (if safe a \<and> safe b then exactly (a * b) else Inexact)"
| "num_mul NaN _ = NaN"
| "num_mul _ NaN = NaN"
| "num_mul _ _ = Inexact"

fun num_sub :: "jsnum \<Rightarrow> jsnum \<Rightarrow> jsnum" where
  "num_sub (Finite a) (Finite b) = (if safe a \<and> safe b then exactly (a - b) else Inexact)"
| "num_sub NaN _ = NaN"
| "num_sub _ NaN = NaN"
| "num_sub _ _ = Inexact"

fun num_add :: "jsnum \<Rightarrow> jsnum \<Rightarrow> jsnum" where
  "num_add (Finite a) (Finite b) = (if safe a \<and> safe b then exactly (a + b) else Inexact)"
| "num_add NaN _ = NaN"
| "num_add _ NaN = NaN"
| "num_add _ _ = Inexact"

datatype jsval =
    Undefined
  | Null
  | Bool bool
  | Num jsnum
  | Str string
  | Arr "jsval list" "(string \<times> jsval) list"
  | Obj "(string \<times> jsval) list"

datatype js_error =
    StatusError int \<comment> \<open>\<open>new Error('Received ' + status + ' response code during fetch')\<close>\<close>
  | TypeError \<comment> \<open>raised by the runtime\<close>
  | HostError string \<comment> \<open>an \<open>Error\<close> object a collaborator rejects with\<close>

text \<open>
  \<open>options.page\<close> as the caller may supply it: missing, \<open>null\<close>, a boolean or a number.
  Strings and objects are left out of the type, because \<open>requestPages\<close> subtracts one from
  the page, and the coercion of text to a number is not modelled.
\<close>

datatype page_value = PageUndefined | PageNull | PageBool bool | PageNumber jsnum

record options =
  page :: page_value
  colors :: "string list option"

record payload =
  limit :: jsnum
  offset :: jsnum
  color :: "string list" \<comment> \<open>the key \<open>"color[]"\<close>\<close>

datatype uri = URI string payload

subsection \<open>Constants\<close>

definition default_page :: jsnum where
  "default_page = Finite 1"

definition default_colors :: "string list" where
  "default_colors = []"

definition default_limit :: jsnum where
  "default_limit = Finite 10"

definition primaryColors :: "jsval list" where
  "primaryColors = [Str ''red'', Str ''blue'', Str ''yellow'']"

definition path :: string where
  "path = ''http://localhost:3000/records''"

subsection \<open>RequestHandler\<close>

text \<open>\<open>typeof v\<close> for a page value.\<close>

fun typeof_page :: "page_value \<Rightarrow> string" where
  "typeof_page PageUndefined = ''undefined''"
| "typeof_page PageNull = ''object''"
| "typeof_page (PageBool _) = ''boolean''"
| "typeof_page (PageNumber _) = ''number''"

text \<open>
  \<open>parseInt\<close> is only ever applied to a value of type number. It prints the number and reads
  the leading integer back. An integer of magnitude up to \<open>2^53\<close> prints as its own digits
  and is returned as it is; \<open>NaN\<close> prints as \<open>"NaN"\<close> and reads as \<open>NaN\<close>. Of any other
  number the text may be cut (a fraction loses its fractional part, \<open>1e21\<close> prints as
  \<open>"1e+21"\<close> and reads as 1, \<open>Infinity\<close> reads as \<open>NaN\<close>): the result is \<open>Inexact\<close>.
\<close>

fun parseInt :: "page_value \<Rightarrow> jsnum" where
  "parseInt (PageNumber (Finite n)) = exactly n"
| "parseInt (PageNumber NaN) = NaN"
| "parseInt (PageNumber Inexact) = Inexact"
| "parseInt _ = NaN"

text \<open>
  The defaults \<open>page = 1\<close> and \<open>limit = 10\<close> of \<open>calculateOffset\<close> stand in for an
  argument that is \<open>undefined\<close>; its one caller passes two numbers.
\<close>

definition calculateOffset :: "jsnum \<Rightarrow> jsnum \<Rightarrow> jsnum" where
  "calculateOffset pg lim = num_sub (num_mul pg lim) lim"

definition resolveLimit :: jsnum where
  "resolveLimit = default_limit"

definition resolveOffset :: "options \<Rightarrow> jsnum" where
  "resolveOffset opts =
     (let pg = (if ''number'' = typeof_page (page opts) then parseInt (page opts)
                else default_page)
      in calculateOffset pg default_limit)"

text \<open>\<open>this.options.colors || defaultRequestOptions.colors\<close>: every array is truthy.\<close>

definition resolveColor :: "options \<Rightarrow> string list" where
  "resolveColor opts = (case colors opts of None \<Rightarrow> default_colors | Some cs \<Rightarrow> cs)"

definition resolvePayload :: "options \<Rightarrow> payload" where
  "resolvePayload opts =
     \<lparr>limit = resolveLimit, offset = resolveOffset opts, color = resolveColor opts\<rparr>"

definition generateApiGetRequest :: "string \<Rightarrow> payload \<Rightarrow> uri" where
  "generateApiGetRequest p pl = URI p pl"

definition formApiRequest :: "options \<Rightarrow> uri" where
  "formApiRequest opts = generateApiGetRequest path (resolvePayload opts)"

subsection \<open>Property access\<close>

text \<open>
  Reading a property of \<open>undefined\<close> or \<open>null\<close> throws a \<open>TypeError\<close>; every other
  value answers, with \<open>undefined\<close> when it has no such property. The program reads only
  \<open>length\<close>, \<open>previousPage\<close>, \<open>nextPage\<close>, \<open>id\<close>, \<open>color\<close>, \<open>disposition\<close> and
  \<open>isPrimary\<close>, none of which a prototype supplies apart from \<open>length\<close> of arrays and
  strings. Of a string's length only its sign is ever used.
\<close>

fun get :: "jsval \<Rightarrow> string \<Rightarrow> js_error + jsval" where
  "get Undefined k = Inl TypeError"
| "get Null k = Inl TypeError"
| "get (Bool b) k = Inr Undefined"
| "get (Num n) k = Inr Undefined"
| "get (Str s) k = Inr (if k = ''length'' then Num (Finite (int (length s))) else Undefined)"
| "get (Arr xs ps) k =
     Inr (if k = ''length'' then Num (Finite (int (length xs)))
          else (case map_of ps k of None \<Rightarrow> Undefined | Some v \<Rightarrow> v))"
| "get (Obj ps) k = Inr (case map_of ps k of None \<Rightarrow> Undefined | Some v \<Rightarrow> v)"

text \<open>
  Assigning to a property: an object or an array takes it, keeping the position of a key it
  already has; \<open>undefined\<close> and \<open>null\<close> throw, and so does a primitive in strict mode.
\<close>

fun put :: "jsval \<Rightarrow> string \<Rightarrow> jsval \<Rightarrow> js_error + jsval" where
  "put (Arr xs ps) k v = Inr (Arr xs (AList.update k v ps))"
| "put (Obj ps) k v = Inr (Obj (AList.update k v ps))"
| "put _ k v = Inl TypeError"

fun truthy :: "jsval \<Rightarrow> bool" where
  "truthy Undefined = False"
| "truthy Null = False"
| "truthy (Bool b) = b"
| "truthy (Num (Finite n)) = (n \<noteq> 0)"
| "truthy (Num NaN) = False"
| "truthy (Num Inexact) = True"
| "truthy (Str s) = (s \<noteq> [])"
| "truthy (Arr xs ps) = True"
| "truthy (Obj ps) = True"

text \<open>
  \<open>Array.prototype.includes\<close> compares with SameValueZero. The array searched holds
  strings only, and a string is the same value as another exactly when they are equal.
\<close>

definition includes_val :: "jsval list \<Rightarrow> jsval \<Rightarrow> bool" where
  "includes_val xs v = (v \<in> set xs)"

subsection \<open>Throwing computations\<close>

definition bind_e :: "'e + 'a \<Rightarrow> ('a \<Rightarrow> 'e + 'b) \<Rightarrow> 'e + 'b" where
  "bind_e m f = (case m of Inl e \<Rightarrow> Inl e | Inr x \<Rightarrow> f x)"

text \<open>\<open>xs.map(f)\<close> and \<open>xs.filter(f)\<close>, left to right, stopping at the first throw.\<close>

fun map_e :: "('a \<Rightarrow> 'e + 'b) \<Rightarrow> 'a list \<Rightarrow> 'e + 'b list" where
  "map_e f [] = Inr []"
| "map_e f (x # xs) = bind_e (f x) (\<lambda>y. bind_e (map_e f xs) (\<lambda>ys. Inr (y # ys)))"

fun filter_e :: "('a \<Rightarrow> 'e + bool) \<Rightarrow> 'a list \<Rightarrow> 'e + 'a list" where
  "filter_e f [] = Inr []"
| "filter_e f (x # xs) =
     bind_e (f x) (\<lambda>b. bind_e (filter_e f xs) (\<lambda>ys. Inr (if b then x # ys else ys)))"

subsection \<open>Promises\<close>

datatype 'a promise = Pending | Fulfilled 'a | Rejected js_error

text \<open>
  \<open>p.then(f)\<close>: the handler runs on the value; what it returns (a value, a promise or a
  throw) is the state of the new promise.
\<close>

definition then_p :: "'a promise \<Rightarrow> ('a \<Rightarrow> 'b promise) \<Rightarrow> 'b promise" where
  "then_p p f = (case p of Pending \<Rightarrow> Pending | Fulfilled v \<Rightarrow> f v | Rejected e \<Rightarrow> Rejected e)"

definition catch_p :: "'a promise \<Rightarrow> (js_error \<Rightarrow> 'a promise) \<Rightarrow> 'a promise" where
  "catch_p p h = (case p of Pending \<Rightarrow> Pending | Fulfilled v \<Rightarrow> Fulfilled v | Rejected e \<Rightarrow> h e)"

text \<open>A handler that returns normally or throws.\<close>

definition settle :: "js_error + 'a \<Rightarrow> 'a promise" where
  "settle r = (case r of Inl e \<Rightarrow> Rejected e | Inr v \<Rightarrow> Fulfilled v)"

text \<open>
  \<open>Promise.all\<close>: rejected as soon as one member is, fulfilled with all the values once
  every member is fulfilled. When several members reject, JavaScript keeps the earliest in
  time and the model the first in the list.
\<close>

fun all_p :: "'a promise list \<Rightarrow> 'a list promise" where
  "all_p [] = Fulfilled []"
| "all_p (Rejected e # ps) = Rejected e"
| "all_p (Pending # ps) = (case all_p ps of Rejected e \<Rightarrow> Rejected e | _ \<Rightarrow> Pending)"
| "all_p (Fulfilled v # ps) =
     (case all_p ps of Rejected e \<Rightarrow> Rejected e | Pending \<Rightarrow> Pending
      | Fulfilled vs \<Rightarrow> Fulfilled (v # vs))"

subsection \<open>The host: \<open>fetch\<close> and the coercions of the runtime\<close>

text \<open>
  \<open>fetch\<close> comes from \<open>../util/fetch-fill\<close>, which is not part of the module: it is a
  parameter. A response shows the program \<open>ok\<close>, \<open>status\<close> and \<open>json()\<close>, the promise of
  the parsed body, rejected when the body is not JSON. The answer to a request may depend
  on the address and on how many requests went before it.

  \<open>v > 0\<close> is decided by the model for \<open>undefined\<close>, \<open>null\<close>, booleans, integers and
  \<open>NaN\<close>; for a string, an array or an object JavaScript first turns the value into text
  and the text into a number, which may also throw. That step is a second parameter, and
  it also answers for a number the model does not determine.
\<close>

record response =
  ok :: bool
  status :: int
  json :: "jsval promise"

record host =
  fetch :: "nat \<Rightarrow> uri \<Rightarrow> response promise"
  coerced_gt_zero :: "jsval \<Rightarrow> js_error + bool"

fun gt_zero :: "host \<Rightarrow> jsval \<Rightarrow> js_error + bool" where
  "gt_zero h Undefined = Inr False"
| "gt_zero h Null = Inr False"
| "gt_zero h (Bool b) = Inr b"
| "gt_zero h (Num (Finite n)) = Inr (0 < n)"
| "gt_zero h (Num NaN) = Inr False"
| "gt_zero h v = coerced_gt_zero h v"

subsection \<open>Requests\<close>

text \<open>\<open>console.log\<close> returns \<open>undefined\<close>; what it prints is not modelled.\<close>

definition log_error :: "js_error \<Rightarrow> jsval promise" where
  "log_error e = Fulfilled Undefined"

definition on_response :: "response \<Rightarrow> jsval promise" where
  "on_response r =
     (if ok r then json r
      else if status r > 400 \<and> status r < 600 then Rejected (StatusError (status r))
      else Fulfilled Undefined)"

text \<open>
  The state threaded through a call is the list of addresses requested so far; the
  \<open>k\<close>-th request is answered by \<open>fetch h k\<close>. The address is formed when \<open>request\<close> is
  called, from the options as they are at that moment.
\<close>

definition request :: "host \<Rightarrow> uri list \<Rightarrow> options \<Rightarrow> uri list \<times> jsval promise" where
  "request h sent opts =
     (let u = formApiRequest opts
      in (sent @ [u], catch_p (then_p (fetch h (length sent) u) on_response) log_error))"

text \<open>\<open>peek\<close> writes the page into the caller's object and requests it.\<close>

definition peek ::
  "host \<Rightarrow> uri list \<Rightarrow> options \<Rightarrow> jsnum \<Rightarrow> options \<times> uri list \<times> jsval promise" where
  "peek h sent opts pg =
     (let opts' = opts\<lparr>page := PageNumber pg\<rparr>
      in (opts', request h sent opts'))"

fun truthy_page :: "page_value \<Rightarrow> bool" where
  "truthy_page PageUndefined = False"
| "truthy_page PageNull = False"
| "truthy_page (PageBool b) = b"
| "truthy_page (PageNumber (Finite n)) = (n \<noteq> 0)"
| "truthy_page (PageNumber NaN) = False"
| "truthy_page (PageNumber Inexact) = True"

fun to_number :: "page_value \<Rightarrow> jsnum" where
  "to_number PageUndefined = NaN"
| "to_number PageNull = Finite 0"
| "to_number (PageBool b) = Finite (if b then 1 else 0)"
| "to_number (PageNumber n) = n"

text \<open>\<open>options.page || defaultRequestOptions.page\<close>\<close>

definition currentPage :: "options \<Rightarrow> page_value" where
  "currentPage opts =
     (if truthy_page (page opts) then page opts else PageNumber default_page)"

text \<open>\<open>response => (response && response.length > 0) ? pageNo : null\<close>\<close>

definition has_records :: "host \<Rightarrow> jsval \<Rightarrow> js_error + bool" where
  "has_records h r = (if truthy r then bind_e (get r ''length'') (gt_zero h) else Inr False)"

definition page_if_records :: "host \<Rightarrow> jsnum \<Rightarrow> jsval \<Rightarrow> jsval promise" where
  "page_if_records h pageNo r =
     settle (bind_e (has_records h r) (\<lambda>b. Inr (if b then Num pageNo else Null)))"

text \<open>The handler after \<open>Promise.all\<close>: attach both page numbers to the current response.\<close>

definition attach_pages :: "jsval list \<Rightarrow> jsval promise" where
  "attach_pages responses =
     (let r = responses ! 0
      in settle (bind_e (put r ''previousPage'' (responses ! 1))
                  (\<lambda>r1. put r1 ''nextPage'' (responses ! 2))))"

definition requestPages ::
  "host \<Rightarrow> uri list \<Rightarrow> options \<Rightarrow> options \<times> uri list \<times> jsval promise" where
  "requestPages h sent opts =
     (let cur = currentPage opts;
          (sent0, p0) = request h sent opts;
          current = catch_p (then_p p0 Fulfilled) log_error;
          pageBefore = num_sub (to_number cur) (Finite 1);
          (opts1, sent1, p1) = peek h sent0 opts pageBefore;
          previous = catch_p (then_p p1 (page_if_records h pageBefore)) log_error;
          pageAfter = num_add (to_number cur) (Finite 1);
          (opts2, sent2, p2) = peek h sent1 opts1 pageAfter;
          next = catch_p (then_p p2 (page_if_records h pageAfter)) log_error
      in (opts2, sent2,
          catch_p (then_p (all_p [current, previous, next]) attach_pages) log_error))"

subsection \<open>ResponseHandler\<close>

text \<open>
  \<open>this.response\<close> and \<open>this.options\<close> are set on entry to \<open>resolveResponse\<close> and read
  before it returns; they are parameters here. The records are amended in place, so each
  function that mutates returns the response as it has become.
\<close>

record aggregate =
  previousPage :: jsval
  nextPage :: jsval
  ids :: "jsval list"
  opened :: "jsval list" \<comment> \<open>the key \<open>open\<close>\<close>
  closedPrimaryCount :: nat

definition amend :: "jsval \<Rightarrow> js_error + jsval" where
  "amend record =
     bind_e (get record ''color'')
       (\<lambda>c. put record ''isPrimary'' (Bool (if includes_val primaryColors c then True else False)))"

fun deriveAndAmendIsPrimary :: "jsval \<Rightarrow> js_error + jsval" where
  "deriveAndAmendIsPrimary (Arr xs ps) = bind_e (map_e amend xs) (\<lambda>ys. Inr (Arr ys ps))"
| "deriveAndAmendIsPrimary _ = Inl TypeError"

fun resolveIds :: "jsval \<Rightarrow> js_error + jsval list" where
  "resolveIds (Arr xs ps) = map_e (\<lambda>record. get record ''id'') xs"
| "resolveIds _ = Inl TypeError"

definition is_open :: "jsval \<Rightarrow> js_error + bool" where
  "is_open record = bind_e (get record ''disposition'') (\<lambda>d. Inr (d = Str ''open''))"

fun resolveOpen :: "jsval \<Rightarrow> js_error + jsval list" where
  "resolveOpen (Arr xs ps) = filter_e is_open xs"
| "resolveOpen _ = Inl TypeError"

definition is_closed_primary :: "jsval \<Rightarrow> js_error + bool" where
  "is_closed_primary record =
     bind_e (get record ''disposition'')
       (\<lambda>d. if d = Str ''closed''
            then bind_e (get record ''isPrimary'') (\<lambda>p. Inr (truthy p))
            else Inr False)"

fun resolveClosedPrimaryCount :: "jsval \<Rightarrow> js_error + nat" where
  "resolveClosedPrimaryCount (Arr xs ps) =
     bind_e (filter_e is_closed_primary xs) (\<lambda>ys. Inr (length ys))"
| "resolveClosedPrimaryCount _ = Inl TypeError"

text \<open>A default parameter \<open>response = []\<close> replaces \<open>undefined\<close> and nothing else.\<close>

definition default_response :: "jsval \<Rightarrow> jsval" where
  "default_response r = (if r = Undefined then Arr [] [] else r)"

definition resolveResponse :: "jsval \<Rightarrow> options \<Rightarrow> js_error + jsval \<times> aggregate" where
  "resolveResponse resp opts =
     bind_e (deriveAndAmendIsPrimary (default_response resp)) (\<lambda>r.
     bind_e (get r ''previousPage'') (\<lambda>pp.
     bind_e (get r ''nextPage'') (\<lambda>np.
     bind_e (resolveIds r) (\<lambda>is.
     bind_e (resolveOpen r) (\<lambda>os.
     bind_e (resolveClosedPrimaryCount r) (\<lambda>n.
       Inr (r, \<lparr>previousPage = pp, nextPage = np, ids = is, opened = os,
                closedPrimaryCount = n\<rparr>)))))))"

definition transformResponse :: "jsval \<Rightarrow> options \<Rightarrow> js_error + aggregate" where
  "transformResponse resp opts =
     bind_e (resolveResponse (default_response resp) opts) (\<lambda>(r1, transformedResponse).
     bind_e (resolveResponse r1 opts) (\<lambda>(r2, a). Inr a))"

subsection \<open>Entry point\<close>

text \<open>
  \<open>retrieve\<close> resolves to an aggregate, or to \<open>undefined\<close> (here \<open>None\<close>) when its own
  \<open>catch\<close> has logged an error. It returns the options object as the calls have left it.
\<close>

definition retrieve ::
  "host \<Rightarrow> uri list \<Rightarrow> options \<Rightarrow> options \<times> uri list \<times> aggregate option promise" where
  "retrieve h sent opts =
     (let (opts', sent', p) = requestPages h sent opts
      in (opts', sent',
          catch_p (then_p p (\<lambda>r. settle (bind_e (transformResponse r opts') (\<lambda>a. Inr (Some a)))))
            (\<lambda>e. Fulfilled None)))"

subsection \<open>Vocabulary of the properties\<close>

text \<open>
  The three requests of one call, as \<open>requestPages\<close> issues them: the current page with
  the options as supplied, then the page before and the page after, each with the page
  written into the options and one more address on the wire.
\<close>

definition targetPage :: "options \<Rightarrow> jsnum" where
  "targetPage opts = to_number (currentPage opts)"

definition previous_options :: "options \<Rightarrow> options" where
  "previous_options opts = opts\<lparr>page := PageNumber (num_sub (targetPage opts) (Finite 1))\<rparr>"

definition next_options :: "options \<Rightarrow> options" where
  "next_options opts = opts\<lparr>page := PageNumber (num_add (targetPage opts) (Finite 1))\<rparr>"

definition current_result :: "host \<Rightarrow> uri list \<Rightarrow> options \<Rightarrow> jsval promise" where
  "current_result h sent opts = snd (request h sent opts)"

definition previous_result :: "host \<Rightarrow> uri list \<Rightarrow> options \<Rightarrow> jsval promise" where
  "previous_result h sent opts =
     snd (request h (sent @ [formApiRequest opts]) (previous_options opts))"

definition next_result :: "host \<Rightarrow> uri list \<Rightarrow> options \<Rightarrow> jsval promise" where
  "next_result h sent opts =
     snd (request h (sent @ [formApiRequest opts, formApiRequest (previous_options opts)])
            (next_options opts))"

text \<open>A fetch that fails: rejected, answered with a status that is not ok, or answered ok
  with a body that does not parse.\<close>

fun unparsed :: "jsval promise \<Rightarrow> bool" where
  "unparsed (Rejected e) = True"
| "unparsed _ = False"

fun fails :: "response promise \<Rightarrow> bool" where
  "fails Pending = False"
| "fails (Rejected e) = True"
| "fails (Fulfilled r) = (if ok r then unparsed (json r) else True)"

fun pending :: "'a promise \<Rightarrow> bool" where
  "pending Pending = True"
| "pending _ = False"

fun rejected :: "'a promise \<Rightarrow> bool" where
  "rejected (Rejected e) = True"
| "rejected _ = False"

text \<open>A fetch that settles: it is answered or rejected, and a body that is read is parsed
  or refused.\<close>

fun settles :: "response promise \<Rightarrow> bool" where
  "settles Pending = False"
| "settles (Rejected e) = True"
| "settles (Fulfilled r) = (if ok r then \<not> pending (json r) else True)"

text \<open>Values that take properties, and a read that cannot throw.\<close>

fun is_object :: "jsval \<Rightarrow> bool" where
  "is_object (Arr xs ps) = True"
| "is_object (Obj ps) = True"
| "is_object _ = False"

fun field :: "jsval \<Rightarrow> string \<Rightarrow> jsval" where
  "field (Str s) k = (if k = ''length'' then Num (Finite (int (length s))) else Undefined)"
| "field (Arr xs ps) k =
     (if k = ''length'' then Num (Finite (int (length xs)))
      else (case map_of ps k of None \<Rightarrow> Undefined | Some v \<Rightarrow> v))"
| "field (Obj ps) k = (case map_of ps k of None \<Rightarrow> Undefined | Some v \<Rightarrow> v)"
| "field _ k = Undefined"

definition primary :: "jsval \<Rightarrow> bool" where
  "primary record = (field record ''color'' \<in> {Str ''red'', Str ''blue'', Str ''yellow''})"

fun amended :: "jsval \<Rightarrow> jsval" where
  "amended (Arr xs ps) = Arr xs (AList.update ''isPrimary'' (Bool (primary (Arr xs ps))) ps)"
| "amended (Obj ps) = Obj (AList.update ''isPrimary'' (Bool (primary (Obj ps))) ps)"
| "amended v = v"

text \<open>What a probe found: a page with at least one record.\<close>

fun yields_records :: "jsval promise \<Rightarrow> bool" where
  "yields_records (Fulfilled (Arr xs ps)) = (xs \<noteq> [])"
| "yields_records _ = False"

text \<open>A probe that ends as the program expects: with no value, or with an array.\<close>

fun page_or_nothing :: "jsval promise \<Rightarrow> bool" where
  "page_or_nothing (Fulfilled Undefined) = True"
| "page_or_nothing (Fulfilled (Arr xs ps)) = True"
| "page_or_nothing _ = False"

text \<open>
  The aggregate of a page of records \<open>xs\<close> that carries the properties \<open>ps\<close>, written
  down from the description of the transformation: the identifiers in order, the open
  records with the flag derived, and the number of closed records of a primary colour.
\<close>

definition aggregate_of :: "jsval list \<Rightarrow> (string \<times> jsval) list \<Rightarrow> aggregate" where
  "aggregate_of xs ps =
     \<lparr>previousPage = field (Arr xs ps) ''previousPage'',
      nextPage = field (Arr xs ps) ''nextPage'',
      ids = map (\<lambda>x. field x ''id'') xs,
      opened = map amended (filter (\<lambda>x. field x ''disposition'' = Str ''open'') xs),
      closedPrimaryCount =
        length (filter (\<lambda>x. field x ''disposition'' = Str ''closed'' \<and> primary x) xs)\<rparr>"

subsection \<open>Sample inputs\<close>

definition red_open :: jsval where
  "red_open = Obj [(''id'', Num (Finite 1)), (''color'', Str ''red''),
                   (''disposition'', Str ''open'')]"

definition green_closed :: jsval where
  "green_closed = Obj [(''id'', Num (Finite 2)), (''color'', Str ''green''),
                       (''disposition'', Str ''closed'')]"

definition blue_closed :: jsval where
  "blue_closed = Obj [(''id'', Num (Finite 3)), (''color'', Str ''blue''),
                      (''disposition'', Str ''closed'')]"

definition answer :: "jsval \<Rightarrow> response promise" where
  "answer v = Fulfilled \<lparr>ok = True, status = 200, json = Fulfilled v\<rparr>"

definition server_error :: "response promise" where
  "server_error = Fulfilled \<lparr>ok = False, status = 500, json = Rejected (HostError ''no body'')\<rparr>"

definition no_coercion :: "jsval \<Rightarrow> js_error + bool" where
  "no_coercion v = Inr False"

text \<open>Page 2 holds two records, page 1 one record, page 3 none.\<close>

definition host_pages :: host where
  "host_pages =
     \<lparr>fetch = (\<lambda>k u. if k = 0 then answer (Arr [red_open, green_closed] [])
                     else if k = 1 then answer (Arr [red_open] [])
                     else answer (Arr [] [])),
      coerced_gt_zero = no_coercion\<rparr>"

text \<open>The same, but the request for page 2 is answered with status 500.\<close>

definition host_500 :: host where
  "host_500 =
     \<lparr>fetch = (\<lambda>k u. if k = 0 then server_error
                     else if k = 1 then answer (Arr [red_open] [])
                     else answer (Arr [] [])),
      coerced_gt_zero = no_coercion\<rparr>"

text \<open>The same, but the body of page 2 is the JSON object \<open>{}\<close>.\<close>

definition host_object :: host where
  "host_object =
     \<lparr>fetch = (\<lambda>k u. if k = 0 then answer (Obj [])
                     else if k = 1 then answer (Arr [red_open] [])
                     else answer (Arr [] [])),
      coerced_gt_zero = no_coercion\<rparr>"

text \<open>The request for the current page is refused by the network; the page after holds
  one record.\<close>

definition host_offline :: host where
  "host_offline =
     \<lparr>fetch = (\<lambda>k u. if k = 0 then Rejected (HostError ''connection reset'')
                     else if k = 1 then answer (Arr [] [])
                     else answer (Arr [blue_closed] [])),
      coerced_gt_zero = no_coercion\<rparr>"

text \<open>Every request is answered with status 200 and a body that is not JSON.\<close>

definition host_garbled :: host where
  "host_garbled =
     \<lparr>fetch = (\<lambda>k u. Fulfilled \<lparr>ok = True, status = 200,
                                  json = Rejected (HostError ''unexpected token'')\<rparr>),
      coerced_gt_zero = no_coercion\<rparr>"

definition page_two :: options where
  "page_two = \<lparr>page = PageNumber (Finite 2), colors = Some []\<rparr>"

definition page_one :: options where
  "page_one = \<lparr>page = PageNumber (Finite 1), colors = None\<rparr>"

definition page_zero :: options where
  "page_zero = \<lparr>page = PageNumber (Finite 0), colors = None\<rparr>"

section \<open>The transformation of a page\<close>

lemma bind_e_Inl [simp]: "bind_e (Inl e) f = Inl e"
  by (simp add: bind_e_def)

lemma bind_e_Inr [simp]: "bind_e (Inr x) f = f x"
  by (simp add: bind_e_def)

lemma get_object: "is_object x \<Longrightarrow> get x k = Inr (field x k)"
  by (cases x) simp_all

lemma amend_object: "is_object x \<Longrightarrow> amend x = Inr (amended x)"
  by (cases x) (simp_all add: amend_def primary_def includes_val_def primaryColors_def)

lemma amend_Inr: "amend x = Inr y \<Longrightarrow> is_object x"
  by (cases x) (simp_all add: amend_def)

lemma is_object_amended [simp]: "is_object (amended x) = is_object x"
  by (cases x) simp_all

lemma field_amended: "k \<noteq> ''isPrimary'' \<Longrightarrow> field (amended x) k = field x k"
  by (cases x) (simp_all add: update_conv')

lemma primary_amended [simp]: "primary (amended x) = primary x"
  by (simp add: primary_def field_amended)

lemma amended_idem [simp]: "amended (amended x) = amended x"
proof (cases x)
  case (Arr xs ps)
  have "primary (amended (Arr xs ps)) = primary (Arr xs ps)" by (rule primary_amended)
  then show ?thesis using Arr by simp
next
  case (Obj ps)
  have "primary (amended (Obj ps)) = primary (Obj ps)" by (rule primary_amended)
  then show ?thesis using Obj by simp
qed simp_all

lemma field_isPrimary: "is_object x \<Longrightarrow> field (amended x) ''isPrimary'' = Bool (primary x)"
  by (cases x) (simp_all add: update_conv')

lemma map_e_amend: "list_all is_object xs \<Longrightarrow> map_e amend xs = Inr (map amended xs)"
  by (induction xs) (simp_all add: amend_object)

lemma map_e_amend_Inr: "map_e amend xs = Inr ys \<Longrightarrow> list_all is_object xs"
proof (induction xs arbitrary: ys)
  case Nil
  then show ?case by simp
next
  case (Cons x xs)
  then show ?case
    by (auto simp: bind_e_def split: sum.splits dest: amend_Inr)
qed

lemma map_e_id: "list_all is_object xs \<Longrightarrow>
  map_e (\<lambda>record. get record ''id'') (map amended xs) = Inr (map (\<lambda>x. field x ''id'') xs)"
  by (induction xs) (simp_all add: get_object field_amended)

lemma is_open_amended: "is_object x \<Longrightarrow>
  is_open (amended x) = Inr (field x ''disposition'' = Str ''open'')"
  by (simp add: is_open_def get_object field_amended)

lemma filter_e_open: "list_all is_object xs \<Longrightarrow>
  filter_e is_open (map amended xs) =
    Inr (map amended (filter (\<lambda>x. field x ''disposition'' = Str ''open'') xs))"
  by (induction xs) (simp_all add: is_open_amended)

lemma is_closed_primary_amended: "is_object x \<Longrightarrow>
  is_closed_primary (amended x) = Inr (field x ''disposition'' = Str ''closed'' \<and> primary x)"
  by (simp add: is_closed_primary_def get_object field_amended field_isPrimary)

lemma filter_e_closed: "list_all is_object xs \<Longrightarrow>
  filter_e is_closed_primary (map amended xs) =
    Inr (map amended (filter (\<lambda>x. field x ''disposition'' = Str ''closed'' \<and> primary x) xs))"
  by (induction xs) (simp_all add: is_closed_primary_amended)

lemma resolveResponse_objects:
  assumes "list_all is_object xs"
  shows "resolveResponse (Arr xs ps) opts = Inr (Arr (map amended xs) ps, aggregate_of xs ps)"
  using assms
  by (simp add: resolveResponse_def default_response_def map_e_amend map_e_id filter_e_open
      filter_e_closed aggregate_of_def)

lemma aggregate_of_amended: "aggregate_of (map amended xs) ps = aggregate_of xs ps"
  by (simp add: aggregate_of_def field_amended filter_map o_def)

lemma resolveResponse_Inr:
  assumes "resolveResponse resp opts = Inr (r, a)"
  obtains xs ps where "default_response resp = Arr xs ps" "list_all is_object xs"
    "r = Arr (map amended xs) ps" "a = aggregate_of xs ps"
proof -
  from assms obtain r0 where d: "deriveAndAmendIsPrimary (default_response resp) = Inr r0"
    by (auto simp: resolveResponse_def bind_e_def split: sum.splits)
  then obtain xs ps where a: "default_response resp = Arr xs ps"
    by (cases "default_response resp") simp_all
  with d obtain ys where "map_e amend xs = Inr ys"
    by (auto simp: bind_e_def split: sum.splits)
  then have o: "list_all is_object xs" by (rule map_e_amend_Inr)
  have "resolveResponse resp opts = resolveResponse (Arr xs ps) opts"
    using a by (simp add: resolveResponse_def default_response_def split: if_splits)
  with assms resolveResponse_objects [OF o, of ps opts]
  have "r = Arr (map amended xs) ps" "a = aggregate_of xs ps" by simp_all
  with a o that show thesis by blast
qed

lemma default_response_idem [simp]: "default_response (default_response r) = default_response r"
  by (simp add: default_response_def)

lemma resolveResponse_default [simp]:
  "resolveResponse (default_response resp) opts = resolveResponse resp opts"
  by (simp add: resolveResponse_def)

lemma resolveResponse_again:
  assumes "resolveResponse resp opts = Inr (r, a)"
  shows "resolveResponse r opts = Inr (r, a)"
proof -
  from assms obtain xs ps where o: "list_all is_object xs"
    and r: "r = Arr (map amended xs) ps" and a: "a = aggregate_of xs ps"
    by (rule resolveResponse_Inr)
  from o have "list_all is_object (map amended xs)" by (simp add: list_all_iff)
  then have "resolveResponse (Arr (map amended xs) ps) opts =
      Inr (Arr (map amended (map amended xs)) ps, aggregate_of (map amended xs) ps)"
    by (rule resolveResponse_objects)
  then show ?thesis using r a by (simp add: aggregate_of_amended o_def)
qed

section \<open>Requests and promises\<close>

lemma then_p_simps [simp]:
  "then_p Pending f = Pending"
  "then_p (Fulfilled v) f = f v"
  "then_p (Rejected e) f = Rejected e"
  by (simp_all add: then_p_def)

lemma catch_p_simps [simp]:
  "catch_p Pending g = Pending"
  "catch_p (Fulfilled v) g = Fulfilled v"
  "catch_p (Rejected e) g = g e"
  by (simp_all add: catch_p_def)

lemma settle_simps [simp]:
  "settle (Inl e) = Rejected e"
  "settle (Inr v) = Fulfilled v"
  by (simp_all add: settle_def)

lemma then_p_Fulfilled [simp]: "then_p p Fulfilled = p"
  by (cases p) simp_all

lemma logged_not_rejected [simp]: "\<not> rejected (catch_p p log_error)"
  by (cases p) (simp_all add: log_error_def)

lemma logged_pending [simp]: "pending (catch_p p log_error) = pending p"
  by (cases p) (simp_all add: log_error_def)

lemma logged_unrejected: "\<not> rejected p \<Longrightarrow> catch_p p log_error = p"
  by (cases p) simp_all

lemma settle_not_pending [simp]: "\<not> pending (settle r)"
  by (cases r) simp_all

lemma request_sent [simp]: "fst (request h sent opts) = sent @ [formApiRequest opts]"
  by (simp add: request_def Let_def)

lemma request_result:
  "snd (request h sent opts) =
     catch_p (then_p (fetch h (length sent) (formApiRequest opts)) on_response) log_error"
  by (simp add: request_def Let_def)

lemma request_not_rejected [simp]: "\<not> rejected (snd (request h sent opts))"
  by (simp add: request_result)

lemma answered_fails:
  "fails (Fulfilled r) \<Longrightarrow> catch_p (on_response r) log_error = Fulfilled Undefined"
  by (cases "json r") (auto simp: on_response_def log_error_def split: if_splits)

lemma request_fails:
  assumes "fails (fetch h (length sent) (formApiRequest opts))"
  shows "snd (request h sent opts) = Fulfilled Undefined"
proof (cases "fetch h (length sent) (formApiRequest opts)")
  case Pending
  with assms show ?thesis by simp
next
  case (Fulfilled r)
  with assms show ?thesis by (simp add: request_result answered_fails)
next
  case (Rejected e)
  then show ?thesis by (simp add: request_result log_error_def)
qed

lemma request_settles:
  assumes "settles (fetch h (length sent) (formApiRequest opts))"
  shows "\<not> pending (snd (request h sent opts))"
proof (cases "fetch h (length sent) (formApiRequest opts)")
  case Pending
  with assms show ?thesis by simp
next
  case (Fulfilled r)
  with assms show ?thesis
    by (cases "json r") (auto simp: request_result on_response_def log_error_def split: if_splits)
next
  case (Rejected e)
  then show ?thesis by (simp add: request_result log_error_def)
qed

text \<open>The page number a probe contributes.\<close>

lemma has_records_Arr: "has_records h (Arr xs ps) = Inr (xs \<noteq> [])"
  by (simp add: has_records_def)

lemma hint_nothing:
  "catch_p (page_if_records h pg Undefined) log_error = Fulfilled Null"
  by (simp add: page_if_records_def has_records_def)

lemma hint_page:
  "catch_p (page_if_records h pg (Arr xs ps)) log_error =
     Fulfilled (if xs \<noteq> [] then Num pg else Null)"
  by (simp add: page_if_records_def has_records_Arr)

lemma hint_expected:
  assumes "page_or_nothing q"
  shows "catch_p (then_p q (page_if_records h pg)) log_error =
           Fulfilled (if yields_records q then Num pg else Null)"
  using assms by (cases q rule: page_or_nothing.cases) (simp_all add: hint_nothing hint_page)

lemma hint_settled:
  assumes "\<not> pending q" "\<not> rejected q"
  obtains v where "catch_p (then_p q (page_if_records h pg)) log_error = Fulfilled v"
proof (cases q)
  case Pending
  with assms show ?thesis by simp
next
  case (Fulfilled r)
  show ?thesis
  proof (cases "page_if_records h pg r")
    case Pending
    then show ?thesis by (simp add: page_if_records_def settle_def split: sum.splits)
  next
    case (Fulfilled v)
    with \<open>q = Fulfilled r\<close> that show ?thesis by simp
  next
    case (Rejected e)
    with \<open>q = Fulfilled r\<close> that show ?thesis by (simp add: log_error_def)
  qed
next
  case (Rejected e)
  with assms show ?thesis by simp
qed

lemma requestPages_eq:
  "requestPages h sent opts =
     (next_options opts,
      sent @ [formApiRequest opts, formApiRequest (previous_options opts),
              formApiRequest (next_options opts)],
      catch_p (then_p (all_p
        [current_result h sent opts,
         catch_p (then_p (previous_result h sent opts)
                    (page_if_records h (num_sub (targetPage opts) (Finite 1)))) log_error,
         catch_p (then_p (next_result h sent opts)
                    (page_if_records h (num_add (targetPage opts) (Finite 1)))) log_error])
        attach_pages) log_error)"
  by (simp add: requestPages_def peek_def Let_def split_beta logged_unrejected
      current_result_def previous_result_def next_result_def previous_options_def
      next_options_def targetPage_def request_result)

lemma attach_pages_Arr:
  "attach_pages [Arr xs ps, a, b] =
     Fulfilled (Arr xs (AList.update ''nextPage'' b (AList.update ''previousPage'' a ps)))"
  by (simp add: attach_pages_def)

lemma attach_pages_Undefined: "attach_pages [Undefined, a, b] = Rejected TypeError"
  by (simp add: attach_pages_def)

lemma retrieve_eq:
  "retrieve h sent opts =
     (next_options opts,
      sent @ [formApiRequest opts, formApiRequest (previous_options opts),
              formApiRequest (next_options opts)],
      catch_p (then_p (snd (snd (requestPages h sent opts)))
          (\<lambda>r. settle (bind_e (transformResponse r (next_options opts)) (\<lambda>a. Inr (Some a)))))
        (\<lambda>e. Fulfilled None))"
  by (simp add: retrieve_def requestPages_eq)

lemma transformResponse_Undefined:
  "transformResponse Undefined opts = Inr (aggregate_of [] [])"
  by (simp add: transformResponse_def default_response_def resolveResponse_objects)

lemma transformResponse_objects:
  assumes "list_all is_object xs"
  shows "transformResponse (Arr xs ps) opts = Inr (aggregate_of xs ps)"
proof -
  from assms have "list_all is_object (map amended xs)" by (simp add: list_all_iff)
  then show ?thesis using assms
    by (simp add: transformResponse_def resolveResponse_objects aggregate_of_amended)
qed

lemma retrieve_no_current:
  assumes "current_result h sent opts = Fulfilled Undefined"
    and "\<not> pending (previous_result h sent opts)"
    and "\<not> pending (next_result h sent opts)"
  shows "snd (snd (retrieve h sent opts)) = Fulfilled (Some (aggregate_of [] []))"
proof -
  obtain a where a: "catch_p (then_p (previous_result h sent opts)
      (page_if_records h (num_sub (targetPage opts) (Finite 1)))) log_error = Fulfilled a"
    using assms(2) by (rule hint_settled) (simp add: previous_result_def)
  obtain b where b: "catch_p (then_p (next_result h sent opts)
      (page_if_records h (num_add (targetPage opts) (Finite 1)))) log_error = Fulfilled b"
    using assms(3) by (rule hint_settled) (simp add: next_result_def)
  have "snd (snd (requestPages h sent opts)) = Fulfilled Undefined"
    by (simp add: requestPages_eq assms(1) a b attach_pages_Undefined log_error_def)
  then show ?thesis
    by (simp add: retrieve_eq transformResponse_Undefined)
qed

lemma retrieve_current:
  assumes "current_result h sent opts = Fulfilled (Arr xs ps)"
    and "list_all is_object xs"
    and "catch_p (then_p (previous_result h sent opts)
      (page_if_records h (num_sub (targetPage opts) (Finite 1)))) log_error = Fulfilled a"
    and "catch_p (then_p (next_result h sent opts)
      (page_if_records h (num_add (targetPage opts) (Finite 1)))) log_error = Fulfilled b"
  shows "snd (snd (retrieve h sent opts)) =
    Fulfilled (Some (aggregate_of xs
      (AList.update ''nextPage'' b (AList.update ''previousPage'' a ps))))"
proof -
  have "snd (snd (requestPages h sent opts)) =
      Fulfilled (Arr xs (AList.update ''nextPage'' b (AList.update ''previousPage'' a ps)))"
    by (simp add: requestPages_eq assms(1,3,4) attach_pages_Arr)
  then show ?thesis
    by (simp add: retrieve_eq transformResponse_objects [OF assms(2)])
qed

lemma retrieve_not_rejected: "\<not> rejected (snd (snd (retrieve h sent opts)))"
proof -
  have "\<not> rejected (catch_p p (\<lambda>e. Fulfilled None))" for p :: "aggregate option promise"
    by (cases p) simp_all
  then show ?thesis by (simp add: retrieve_eq)
qed

lemma retrieve_settles:
  assumes "\<not> pending (current_result h sent opts)"
    and "\<not> pending (previous_result h sent opts)"
    and "\<not> pending (next_result h sent opts)"
  shows "\<not> pending (snd (snd (retrieve h sent opts)))"
proof -
  have "\<not> rejected (current_result h sent opts)" by (simp add: current_result_def)
  with assms(1) obtain c where c: "current_result h sent opts = Fulfilled c"
    by (cases "current_result h sent opts") simp_all
  obtain a where a: "catch_p (then_p (previous_result h sent opts)
      (page_if_records h (num_sub (targetPage opts) (Finite 1)))) log_error = Fulfilled a"
    using assms(2) by (rule hint_settled) (simp add: previous_result_def)
  obtain b where b: "catch_p (then_p (next_result h sent opts)
      (page_if_records h (num_add (targetPage opts) (Finite 1)))) log_error = Fulfilled b"
    using assms(3) by (rule hint_settled) (simp add: next_result_def)
  have "\<not> pending (snd (snd (requestPages h sent opts)))"
    by (simp add: requestPages_eq c a b attach_pages_def)
  then obtain q where q: "snd (snd (requestPages h sent opts)) = q" "\<not> pending q" by simp
  have "\<not> pending (catch_p (then_p q (\<lambda>r. settle (f r))) (\<lambda>e. Fulfilled None))"
    for f :: "jsval \<Rightarrow> js_error + aggregate option"
  proof (cases q)
    case Pending
    with q(2) show ?thesis by simp
  next
    case (Fulfilled r)
    then show ?thesis by (cases "f r") simp_all
  next
    case (Rejected e)
    then show ?thesis by simp
  qed
  with q(1) show ?thesis by (simp add: retrieve_eq)
qed

section \<open>The sample inputs evaluated\<close>

lemma sample_simps:
  "fetch host_500 k u = (if k = 0 then server_error
                         else if k = 1 then answer (Arr [red_open] []) else answer (Arr [] []))"
  "fetch host_pages k u = (if k = 0 then answer (Arr [red_open, green_closed] [])
                         else if k = 1 then answer (Arr [red_open] []) else answer (Arr [] []))"
  "fetch host_object k u = (if k = 0 then answer (Obj [])
                         else if k = 1 then answer (Arr [red_open] []) else answer (Arr [] []))"
  by (simp_all add: host_500_def host_pages_def host_object_def)

lemma answer_result [simp]:
  "catch_p (then_p (answer v) on_response) log_error = Fulfilled v"
  by (simp add: answer_def on_response_def)

lemma server_error_result [simp]:
  "catch_p (then_p server_error on_response) log_error = Fulfilled Undefined"
  by (simp add: server_error_def on_response_def log_error_def)

lemma results_500:
  "current_result host_500 [] page_two = Fulfilled Undefined"
  "previous_result host_500 [] page_two = Fulfilled (Arr [red_open] [])"
  "next_result host_500 [] page_two = Fulfilled (Arr [] [])"
  by (simp_all add: current_result_def previous_result_def next_result_def request_result
      sample_simps)

lemma sample_requests:
  "snd (request host_500 [] page_two) = Fulfilled Undefined"
  "snd (request host_object [] page_two) = Fulfilled (Obj [])"
  "snd (request host_pages [] page_two) = Fulfilled (Arr [red_open, green_closed] [])"
  by (simp_all add: request_result sample_simps)

lemma results_object:
  "current_result host_object [] page_two = Fulfilled (Obj [])"
  "previous_result host_object [] page_two = Fulfilled (Arr [red_open] [])"
  "next_result host_object [] page_two = Fulfilled (Arr [] [])"
  by (simp_all add: current_result_def previous_result_def next_result_def request_result
      sample_simps)

lemma results_pages:
  "current_result host_pages [] page_two = Fulfilled (Arr [red_open, green_closed] [])"
  "previous_result host_pages [] page_two = Fulfilled (Arr [red_open] [])"
  "next_result host_pages [] page_two = Fulfilled (Arr [] [])"
  by (simp_all add: current_result_def previous_result_def next_result_def request_result
      sample_simps)

lemma results_offline:
  "current_result host_offline [] page_one = Fulfilled Undefined"
  "previous_result host_offline [] page_one = Fulfilled (Arr [] [])"
  "next_result host_offline [] page_one = Fulfilled (Arr [blue_closed] [])"
  by (simp_all add: current_result_def previous_result_def next_result_def request_result
      host_offline_def log_error_def)

lemma field_attached:
  "field (Arr xs (AList.update ''nextPage'' b (AList.update ''previousPage'' a ps)))
     ''previousPage'' = a"
  "field (Arr xs (AList.update ''nextPage'' b (AList.update ''previousPage'' a ps)))
     ''nextPage'' = b"
  by (simp_all add: update_conv')

lemma page_two_target: "targetPage page_two = Finite 2"
  by (simp add: targetPage_def currentPage_def page_two_def)

lemma red_open_object: "is_object red_open" "is_object green_closed" "is_object blue_closed"
  by (simp_all add: red_open_def green_closed_def blue_closed_def)

section \<open>Numbers in range\<close>

lemma exactly_safe: "safe n \<Longrightarrow> exactly n = Finite n"
  by (simp add: exactly_def)

lemma safe_small [simp]:
  "safe 0" "safe 1" "safe 2" "safe 3" "safe 10" "safe (- 10)" "safe 20" "safe (- 2)"
  "safe (- 20)" "safe (- 30)" "safe 30"
  by (simp_all add: safe_def)

lemma exactly_small [simp]:
  "exactly 0 = Finite 0" "exactly 1 = Finite 1" "exactly 2 = Finite 2" "exactly 3 = Finite 3"
  "exactly 10 = Finite 10" "exactly (- 10) = Finite (- 10)" "exactly 20 = Finite 20"
  "exactly (- 2) = Finite (- 2)" "exactly (- 20) = Finite (- 20)"
  "exactly (- 30) = Finite (- 30)" "exactly 30 = Finite 30"
  by (simp_all add: exactly_safe)

lemma calculateOffset_in_range:
  assumes "\<bar>n\<bar> \<le> 900719925474098"
  shows "calculateOffset (exactly n) (Finite 10) = Finite ((n - 1) * 10)"
proof -
  from assms have "safe n" "safe (n * 10)" "safe (n * 10 - 10)"
    by (simp_all add: safe_def)
  then show ?thesis
    by (simp add: calculateOffset_def exactly_safe algebra_simps)
qed

lemma successor_in_range:
  assumes "\<bar>n\<bar> < 9007199254740992"
  shows "num_add (Finite n) (Finite 1) = Finite (n + 1)"
proof -
  from assms have "safe n" "safe (n + 1)"
    by (simp_all add: safe_def)
  then show ?thesis by (simp add: exactly_safe)
qed

section \<open>The page numbers when the current page is there\<close>

text \<open>
  When the request for the current page yields an array of records and each probe ends
  with no value or with an array, the aggregate carries the page before if its probe
  yielded a record and \<open>null\<close> if not, and likewise the page after.
\<close>

lemma hints_on_success:
  assumes "current_result h sent opts = Fulfilled (Arr xs ps)"
    and "list_all is_object xs"
    and "page_or_nothing (previous_result h sent opts)"
    and "page_or_nothing (next_result h sent opts)"
  shows "\<exists>a. snd (snd (retrieve h sent opts)) = Fulfilled (Some a) \<and>
    previousPage a = (if yields_records (previous_result h sent opts)
                      then Num (num_sub (targetPage opts) (Finite 1)) else Null) \<and>
    nextPage a = (if yields_records (next_result h sent opts)
                  then Num (num_add (targetPage opts) (Finite 1)) else Null)"
proof -
  let ?a = "if yields_records (previous_result h sent opts)
            then Num (num_sub (targetPage opts) (Finite 1)) else Null"
  let ?b = "if yields_records (next_result h sent opts)
            then Num (num_add (targetPage opts) (Finite 1)) else Null"
  have "snd (snd (retrieve h sent opts)) =
      Fulfilled (Some (aggregate_of xs
        (AList.update ''nextPage'' ?b (AList.update ''previousPage'' ?a ps))))"
    using assms(1,2) hint_expected [OF assms(3)] hint_expected [OF assms(4)]
    by (rule retrieve_current)
  moreover have "previousPage (aggregate_of xs
        (AList.update ''nextPage'' ?b (AList.update ''previousPage'' ?a ps))) = ?a"
    unfolding aggregate_of_def by (simp only: aggregate.simps field_attached)
  moreover have "nextPage (aggregate_of xs
        (AList.update ''nextPage'' ?b (AList.update ''previousPage'' ?a ps))) = ?b"
    unfolding aggregate_of_def by (simp only: aggregate.simps field_attached)
  ultimately show ?thesis by blast
qed

lemma transformResponse_Obj: "transformResponse (Obj ps) opts = Inl TypeError"
  by (simp add: transformResponse_def resolveResponse_def default_response_def)

lemma retrieve_object:
  assumes "current_result h sent opts = Fulfilled (Obj ps)"
    and "\<not> pending (previous_result h sent opts)"
    and "\<not> pending (next_result h sent opts)"
  shows "snd (snd (retrieve h sent opts)) = Fulfilled None"
proof -
  obtain a where a: "catch_p (then_p (previous_result h sent opts)
      (page_if_records h (num_sub (targetPage opts) (Finite 1)))) log_error = Fulfilled a"
    using assms(2) by (rule hint_settled) (simp add: previous_result_def)
  obtain b where b: "catch_p (then_p (next_result h sent opts)
      (page_if_records h (num_add (targetPage opts) (Finite 1)))) log_error = Fulfilled b"
    using assms(3) by (rule hint_settled) (simp add: next_result_def)
  have "snd (snd (requestPages h sent opts)) =
      Fulfilled (Obj (AList.update ''nextPage'' b (AList.update ''previousPage'' a ps)))"
    by (simp add: requestPages_eq assms(1) a b attach_pages_def)
  then show ?thesis
    by (simp add: retrieve_eq transformResponse_Obj)
qed

lemma retrieve_by_transform:
  assumes "snd (snd (requestPages h sent opts)) = Fulfilled r"
  shows "snd (snd (retrieve h sent opts)) =
    Fulfilled (case transformResponse r (fst (requestPages h sent opts)) of
                 Inl e \<Rightarrow> None | Inr a \<Rightarrow> Some a)"
proof (cases "transformResponse r (next_options opts)")
  case (Inl e)
  with assms show ?thesis by (simp add: retrieve_eq requestPages_eq)
next
  case (Inr a)
  with assms show ?thesis by (simp add: retrieve_eq requestPages_eq)
qed

section \<open>The claims\<close>

subsection \<open>C1: the target page fails, the probes settle\<close>

text \<open>
  C1. When the fetch of the target page fails while both probes settle, \<open>retrieve\<close> is to
  resolve to an aggregate that carries the page numbers the probes found, with \<open>ids\<close> and
  \<open>open\<close> empty and \<open>closedPrimaryCount\<close> 0. The program does not carry them. At page 2,
  answered with status 500, with one record on page 1 and none on page 3, the probes find 1
  and \<open>null\<close>; attaching them to the missing response throws, the throw is logged, and the
  aggregate \<open>retrieve\<close> resolves to has \<open>undefined\<close> in both places.
\<close>

theorem retrieve_failed_target_page_drops_hints:
  "fails (fetch host_500 (length []) (formApiRequest page_two)) \<and>
   catch_p (then_p (previous_result host_500 [] page_two)
      (page_if_records host_500 (Finite 1))) log_error = Fulfilled (Num (Finite 1)) \<and>
   catch_p (then_p (next_result host_500 [] page_two)
      (page_if_records host_500 (Finite 3))) log_error = Fulfilled Null \<and>
   snd (snd (retrieve host_500 [] page_two)) =
    Fulfilled (Some \<lparr>previousPage = Undefined, nextPage = Undefined, ids = [], opened = [],
      closedPrimaryCount = 0\<rparr>) \<and>
   snd (snd (retrieve host_500 [] page_two)) \<noteq>
    Fulfilled (Some \<lparr>previousPage = Num (Finite 1), nextPage = Null, ids = [], opened = [],
      closedPrimaryCount = 0\<rparr>)"
proof -
  have "snd (snd (retrieve host_500 [] page_two)) = Fulfilled (Some (aggregate_of [] []))"
    by (rule retrieve_no_current) (simp_all add: results_500)
  moreover have "fails (fetch host_500 (length []) (formApiRequest page_two))"
    by (simp add: sample_simps server_error_def)
  ultimately show ?thesis
    by (simp add: results_500 hint_page aggregate_of_def)
qed

subsection \<open>C2: the offset\<close>

text \<open>
  C2, as the code has it. The offset sent is \<open>(page - 1) * 10\<close> for every page that is an
  integer, positive, zero or negative, of magnitude up to 900719925474098, the range in
  which the doubles compute it exactly; it is \<open>NaN\<close> for the page \<open>NaN\<close>; and the page
  defaults to 1, so that the offset is 0, exactly when the page supplied is not of type
  number (missing, \<open>null\<close>, a boolean).
\<close>

theorem resolve_offset_by_type:
  "(\<bar>n\<bar> \<le> 900719925474098 \<longrightarrow>
      offset (resolvePayload (opts\<lparr>page := PageNumber (Finite n)\<rparr>)) = Finite ((n - 1) * 10)) \<and>
   offset (resolvePayload (opts\<lparr>page := PageNumber NaN\<rparr>)) = NaN \<and>
   (typeof_page p \<noteq> ''number'' \<longrightarrow> offset (resolvePayload (opts\<lparr>page := p\<rparr>)) = Finite 0)"
proof -
  have "offset (resolvePayload (opts\<lparr>page := PageNumber (Finite n)\<rparr>)) = Finite ((n - 1) * 10)"
    if "\<bar>n\<bar> \<le> 900719925474098"
    using calculateOffset_in_range [OF that]
    by (simp add: resolvePayload_def resolveOffset_def default_limit_def)
  moreover have "offset (resolvePayload (opts\<lparr>page := PageNumber NaN\<rparr>)) = NaN"
    by (simp add: resolvePayload_def resolveOffset_def calculateOffset_def default_limit_def)
  moreover have "offset (resolvePayload (opts\<lparr>page := p\<rparr>)) = Finite 0"
    if "typeof_page p \<noteq> ''number''"
    using that
    by (cases p)
      (simp_all add: resolvePayload_def resolveOffset_def calculateOffset_def default_limit_def
        default_page_def)
  ultimately show ?thesis by simp
qed

text \<open>Pages 3 and -2, and a missing page.\<close>

theorem resolve_offset_by_type_witness:
  "\<bar>3 :: int\<bar> \<le> 900719925474098 \<and>
   offset (resolvePayload (page_one\<lparr>page := PageNumber (Finite 3)\<rparr>)) = Finite 20 \<and>
   \<bar>- 2 :: int\<bar> \<le> 900719925474098 \<and>
   offset (resolvePayload (page_one\<lparr>page := PageNumber (Finite (- 2))\<rparr>)) = Finite (- 30) \<and>
   typeof_page PageUndefined \<noteq> ''number'' \<and>
   offset (resolvePayload (page_one\<lparr>page := PageUndefined\<rparr>)) = Finite 0"
  using resolve_offset_by_type [where opts = page_one and n = 3 and p = PageUndefined]
    resolve_offset_by_type [where opts = page_one and n = "- 2" and p = PageUndefined]
  by simp

text \<open>
  The claim as it was stated has the page default to 1 when it is zero or negative. Page 0
  is a number, no default is taken, and the offset is -10.
\<close>

theorem resolve_offset_page_zero:
  "offset (resolvePayload page_zero) = Finite (- 10) \<and>
   offset (resolvePayload page_zero) \<noteq> Finite 0"
  by (simp add: page_zero_def resolvePayload_def resolveOffset_def calculateOffset_def
      default_limit_def)

subsection \<open>C3: one request\<close>

text \<open>
  C3, as the code has it. The promise of \<open>request\<close> is never rejected. It is fulfilled
  with \<open>undefined\<close> when \<open>fetch\<close> is rejected, when the response has a status from 400
  up to 599 (\<open>ok\<close> being true exactly for 200 to 299), and when the response is ok and its
  body does not parse as JSON. A body that parses is handed on as parsed, whether it is an
  array or not.
\<close>

theorem request_no_value:
  "\<not> rejected (snd (request h sent opts)) \<and>
   (fetch h (length sent) (formApiRequest opts) = Rejected e \<longrightarrow>
      snd (request h sent opts) = Fulfilled Undefined) \<and>
   (fetch h (length sent) (formApiRequest opts) = Fulfilled r \<longrightarrow>
      ok r = (200 \<le> status r \<and> status r \<le> 299) \<longrightarrow> 400 \<le> status r \<longrightarrow> status r < 600 \<longrightarrow>
      snd (request h sent opts) = Fulfilled Undefined) \<and>
   (fetch h (length sent) (formApiRequest opts) = Fulfilled r \<longrightarrow> ok r \<longrightarrow>
      json r = Rejected e \<longrightarrow> snd (request h sent opts) = Fulfilled Undefined) \<and>
   (fetch h (length sent) (formApiRequest opts) = Fulfilled r \<longrightarrow> ok r \<longrightarrow>
      json r = Fulfilled v \<longrightarrow> snd (request h sent opts) = Fulfilled v)"
proof -
  have "snd (request h sent opts) = Fulfilled Undefined"
    if "fetch h (length sent) (formApiRequest opts) = Rejected e"
    using that by (simp add: request_fails)
  moreover have "snd (request h sent opts) = Fulfilled Undefined"
    if "fetch h (length sent) (formApiRequest opts) = Fulfilled r"
      and "ok r = (200 \<le> status r \<and> status r \<le> 299)" and "400 \<le> status r"
    using that by (simp add: request_fails)
  moreover have "snd (request h sent opts) = Fulfilled Undefined"
    if "fetch h (length sent) (formApiRequest opts) = Fulfilled r" and "ok r"
      and "json r = Rejected e"
    using that by (simp add: request_fails)
  moreover have "snd (request h sent opts) = Fulfilled v"
    if "fetch h (length sent) (formApiRequest opts) = Fulfilled r" and "ok r"
      and "json r = Fulfilled v"
    using that by (simp add: request_result on_response_def)
  ultimately show ?thesis by simp
qed

text \<open>A refused connection, a status 500, a body that is not JSON, and a page of two
  records.\<close>

theorem request_no_value_witness:
  "fetch host_offline (length []) (formApiRequest page_one) =
     Rejected (HostError ''connection reset'') \<and>
   snd (request host_offline [] page_one) = Fulfilled Undefined \<and>
   fetch host_500 (length []) (formApiRequest page_two) =
     Fulfilled \<lparr>ok = False, status = 500, json = Rejected (HostError ''no body'')\<rparr> \<and>
   snd (request host_500 [] page_two) = Fulfilled Undefined \<and>
   fetch host_garbled (length []) (formApiRequest page_two) =
     Fulfilled \<lparr>ok = True, status = 200, json = Rejected (HostError ''unexpected token'')\<rparr> \<and>
   snd (request host_garbled [] page_two) = Fulfilled Undefined \<and>
   fetch host_pages (length []) (formApiRequest page_two) =
     Fulfilled \<lparr>ok = True, status = 200, json = Fulfilled (Arr [red_open, green_closed] [])\<rparr> \<and>
   snd (request host_pages [] page_two) = Fulfilled (Arr [red_open, green_closed] []) \<and>
   \<not> rejected (snd (request host_pages [] page_two))"
  using
    request_no_value [where h = host_offline and sent = "[]" and opts = page_one
      and e = "HostError ''connection reset''"]
    request_no_value [where h = host_500 and sent = "[]" and opts = page_two
      and r = "\<lparr>ok = False, status = 500, json = Rejected (HostError ''no body'')\<rparr>"]
    request_no_value [where h = host_garbled and sent = "[]" and opts = page_two
      and r = "\<lparr>ok = True, status = 200, json = Rejected (HostError ''unexpected token'')\<rparr>"
      and e = "HostError ''unexpected token''"]
    request_no_value [where h = host_pages and sent = "[]" and opts = page_two
      and r = "\<lparr>ok = True, status = 200, json = Fulfilled (Arr [red_open, green_closed] [])\<rparr>"
      and v = "Arr [red_open, green_closed] []"]
  by (simp add: sample_simps server_error_def answer_def host_offline_def host_garbled_def)

text \<open>
  The claim as it was stated gives no value for every body that is not an array. The body
  \<open>{}\<close>, sent with status 200, parses, is not an array, and is what the request is
  fulfilled with.
\<close>

theorem request_object_body_passes:
  "fetch host_object 0 (formApiRequest page_two) =
     Fulfilled \<lparr>ok = True, status = 200, json = Fulfilled (Obj [])\<rparr> \<and>
   snd (request host_object [] page_two) = Fulfilled (Obj []) \<and>
   snd (request host_object [] page_two) \<noteq> Fulfilled Undefined"
  by (simp add: sample_requests sample_simps answer_def)

subsection \<open>C4: \<open>retrieve\<close> never rejects\<close>

text \<open>
  C4, as the code has it. The promise of \<open>retrieve\<close> is never rejected, and it is
  fulfilled as soon as the three fetches of the call settle. It is fulfilled with the
  aggregate of what \<open>requestPages\<close> resolved to, or with \<open>undefined\<close> when the
  transformation of that throws. So it is an aggregate, with \<open>ids\<close> and \<open>open\<close> empty
  and a count of 0, when the fetch of the target page fails; it is an aggregate with the
  identifiers of the page when the target page is an array of records; and it is
  \<open>undefined\<close> when the body of the target page is a JSON object that is not an array.
\<close>

theorem retrieve_never_rejects:
  "\<not> rejected (snd (snd (retrieve h sent opts))) \<and>
   (settles (fetch h (length sent) (formApiRequest opts)) \<longrightarrow>
    settles (fetch h (Suc (length sent)) (formApiRequest (previous_options opts))) \<longrightarrow>
    settles (fetch h (Suc (Suc (length sent))) (formApiRequest (next_options opts))) \<longrightarrow>
    (\<exists>v. snd (snd (retrieve h sent opts)) = Fulfilled v)) \<and>
   (snd (snd (requestPages h sent opts)) = Fulfilled r \<longrightarrow>
    snd (snd (retrieve h sent opts)) =
      Fulfilled (case transformResponse r (fst (requestPages h sent opts)) of
                   Inl e \<Rightarrow> None | Inr a \<Rightarrow> Some a)) \<and>
   (fails (fetch h (length sent) (formApiRequest opts)) \<longrightarrow>
    \<not> pending (previous_result h sent opts) \<longrightarrow> \<not> pending (next_result h sent opts) \<longrightarrow>
    (\<exists>a. snd (snd (retrieve h sent opts)) = Fulfilled (Some a) \<and>
         ids a = [] \<and> opened a = [] \<and> closedPrimaryCount a = 0)) \<and>
   (current_result h sent opts = Fulfilled (Arr xs ps) \<longrightarrow> list_all is_object xs \<longrightarrow>
    \<not> pending (previous_result h sent opts) \<longrightarrow> \<not> pending (next_result h sent opts) \<longrightarrow>
    (\<exists>a. snd (snd (retrieve h sent opts)) = Fulfilled (Some a) \<and>
         ids a = map (\<lambda>x. field x ''id'') xs)) \<and>
   (current_result h sent opts = Fulfilled (Obj qs) \<longrightarrow>
    \<not> pending (previous_result h sent opts) \<longrightarrow> \<not> pending (next_result h sent opts) \<longrightarrow>
    snd (snd (retrieve h sent opts)) = Fulfilled None)"
proof -
  have resolves: "\<exists>v. snd (snd (retrieve h sent opts)) = Fulfilled v"
    if c: "settles (fetch h (length sent) (formApiRequest opts))"
      and p: "settles (fetch h (Suc (length sent)) (formApiRequest (previous_options opts)))"
      and n: "settles (fetch h (Suc (Suc (length sent))) (formApiRequest (next_options opts)))"
  proof -
    from c have "\<not> pending (current_result h sent opts)"
      by (simp add: current_result_def request_settles)
    moreover from p have "\<not> pending (previous_result h sent opts)"
      by (simp add: previous_result_def request_settles)
    moreover from n have "\<not> pending (next_result h sent opts)"
      by (simp add: next_result_def request_settles)
    ultimately have "\<not> pending (snd (snd (retrieve h sent opts)))"
      by (rule retrieve_settles)
    moreover have "\<not> rejected (snd (snd (retrieve h sent opts)))"
      by (rule retrieve_not_rejected)
    ultimately show ?thesis
      by (cases "snd (snd (retrieve h sent opts))") simp_all
  qed
  have empty: "\<exists>a. snd (snd (retrieve h sent opts)) = Fulfilled (Some a) \<and>
         ids a = [] \<and> opened a = [] \<and> closedPrimaryCount a = 0"
    if f: "fails (fetch h (length sent) (formApiRequest opts))"
      and p: "\<not> pending (previous_result h sent opts)"
      and n: "\<not> pending (next_result h sent opts)"
  proof -
    from f have "current_result h sent opts = Fulfilled Undefined"
      by (simp add: current_result_def request_fails)
    then have "snd (snd (retrieve h sent opts)) = Fulfilled (Some (aggregate_of [] []))"
      using p n by (rule retrieve_no_current)
    then show ?thesis by (simp add: aggregate_of_def)
  qed
  have records: "\<exists>a. snd (snd (retrieve h sent opts)) = Fulfilled (Some a) \<and>
         ids a = map (\<lambda>x. field x ''id'') xs"
    if c: "current_result h sent opts = Fulfilled (Arr xs ps)"
      and o: "list_all is_object xs"
      and p: "\<not> pending (previous_result h sent opts)"
      and n: "\<not> pending (next_result h sent opts)"
  proof -
    obtain a where a: "catch_p (then_p (previous_result h sent opts)
        (page_if_records h (num_sub (targetPage opts) (Finite 1)))) log_error = Fulfilled a"
      using p by (rule hint_settled) (simp add: previous_result_def)
    obtain b where b: "catch_p (then_p (next_result h sent opts)
        (page_if_records h (num_add (targetPage opts) (Finite 1)))) log_error = Fulfilled b"
      using n by (rule hint_settled) (simp add: next_result_def)
    from c o a b have "snd (snd (retrieve h sent opts)) =
        Fulfilled (Some (aggregate_of xs
          (AList.update ''nextPage'' b (AList.update ''previousPage'' a ps))))"
      by (rule retrieve_current)
    then show ?thesis by (simp add: aggregate_of_def)
  qed
  have object: "snd (snd (retrieve h sent opts)) = Fulfilled None"
    if "current_result h sent opts = Fulfilled (Obj qs)"
      and "\<not> pending (previous_result h sent opts)"
      and "\<not> pending (next_result h sent opts)"
    using that by (rule retrieve_object)
  have transformed: "snd (snd (retrieve h sent opts)) =
      Fulfilled (case transformResponse r (fst (requestPages h sent opts)) of
                   Inl e \<Rightarrow> None | Inr a \<Rightarrow> Some a)"
    if "snd (snd (requestPages h sent opts)) = Fulfilled r"
    using that by (rule retrieve_by_transform)
  from resolves empty records object transformed retrieve_not_rejected [of h sent opts]
  show ?thesis by blast
qed

text \<open>
  Page 2 of two records, with one record on page 1 and none on page 3; the same with page 2
  answered by status 500; and the same with the body \<open>{}\<close> for page 2.
\<close>

theorem retrieve_never_rejects_witness:
  "settles (fetch host_pages (length []) (formApiRequest page_two)) \<and>
   settles (fetch host_pages (Suc (length [])) (formApiRequest (previous_options page_two))) \<and>
   settles (fetch host_pages (Suc (Suc (length []))) (formApiRequest (next_options page_two))) \<and>
   current_result host_pages [] page_two = Fulfilled (Arr [red_open, green_closed] []) \<and>
   list_all is_object [red_open, green_closed] \<and>
   \<not> pending (previous_result host_pages [] page_two) \<and>
   \<not> pending (next_result host_pages [] page_two) \<and>
   \<not> rejected (snd (snd (retrieve host_pages [] page_two))) \<and>
   (\<exists>a. snd (snd (retrieve host_pages [] page_two)) = Fulfilled (Some a) \<and>
        ids a = [Num (Finite 1), Num (Finite 2)]) \<and>
   fails (fetch host_500 (length []) (formApiRequest page_two)) \<and>
   \<not> pending (previous_result host_500 [] page_two) \<and>
   \<not> pending (next_result host_500 [] page_two) \<and>
   (\<exists>a. snd (snd (retrieve host_500 [] page_two)) = Fulfilled (Some a) \<and>
        ids a = [] \<and> opened a = [] \<and> closedPrimaryCount a = 0) \<and>
   current_result host_object [] page_two = Fulfilled (Obj []) \<and>
   \<not> pending (previous_result host_object [] page_two) \<and>
   \<not> pending (next_result host_object [] page_two) \<and>
   snd (snd (retrieve host_object [] page_two)) = Fulfilled None"
proof -
  have s: "settles (fetch host_pages (length []) (formApiRequest page_two))"
    "settles (fetch host_pages (Suc (length [])) (formApiRequest (previous_options page_two)))"
    "settles (fetch host_pages (Suc (Suc (length []))) (formApiRequest (next_options page_two)))"
    by (simp_all add: sample_simps answer_def)
  have o: "list_all is_object [red_open, green_closed]"
    by (simp add: red_open_object)
  have i: "map (\<lambda>x. field x ''id'') [red_open, green_closed] = [Num (Finite 1), Num (Finite 2)]"
    by (simp add: red_open_def green_closed_def)
  have f: "fails (fetch host_500 (length []) (formApiRequest page_two))"
    by (simp add: sample_simps server_error_def)
  note pages = retrieve_never_rejects [where h = host_pages and sent = "[]" and opts = page_two
      and xs = "[red_open, green_closed]" and ps = "[]"]
  note broken = retrieve_never_rejects [where h = host_500 and sent = "[]" and opts = page_two]
  note object = retrieve_never_rejects [where h = host_object and sent = "[]"
      and opts = page_two and qs = "[]"]
  from pages s o i have "\<not> rejected (snd (snd (retrieve host_pages [] page_two)))"
    and "\<exists>a. snd (snd (retrieve host_pages [] page_two)) = Fulfilled (Some a) \<and>
        ids a = [Num (Finite 1), Num (Finite 2)]"
    by (simp_all add: results_pages)
  moreover from broken f
  have "\<exists>a. snd (snd (retrieve host_500 [] page_two)) = Fulfilled (Some a) \<and>
        ids a = [] \<and> opened a = [] \<and> closedPrimaryCount a = 0"
    by (simp add: results_500)
  moreover from object have "snd (snd (retrieve host_object [] page_two)) = Fulfilled None"
    by (simp add: results_object)
  ultimately show ?thesis
    using s o f by (simp add: results_pages results_500 results_object)
qed

text \<open>
  The claim as it was stated has \<open>retrieve\<close> resolve to an aggregate whatever the fetches
  give. When the body of the target page is the JSON object \<open>{}\<close>, the object has no
  \<open>map\<close>, the transformation throws, and \<open>retrieve\<close> is fulfilled with \<open>undefined\<close>.
\<close>

theorem retrieve_object_body_undefined:
  "snd (snd (retrieve host_object [] page_two)) = Fulfilled None"
  by (simp add: retrieve_eq requestPages_eq results_object hint_page attach_pages_def
      transformResponse_def resolveResponse_def default_response_def)

subsection \<open>C5: the adjacent pages\<close>

text \<open>
  C5. The aggregate's \<open>nextPage\<close> is to be the target page plus one exactly when the probe
  of that page yielded a record, and \<open>null\<close> otherwise; likewise \<open>previousPage\<close>. The
  program does so while the target page itself is there. When the fetch of the target page
  fails it does not: for page 1, refused by the network, with a record on page 2, the probe
  finds 2, attaching it to the missing response throws, and the aggregate's \<open>nextPage\<close> is
  \<open>undefined\<close>, neither 2 nor \<open>null\<close>.
\<close>

theorem adjacent_pages_lost:
  "targetPage page_one = Finite 1 \<and>
   fails (fetch host_offline (length []) (formApiRequest page_one)) \<and>
   yields_records (next_result host_offline [] page_one) \<and>
   catch_p (then_p (next_result host_offline [] page_one)
      (page_if_records host_offline (Finite 2))) log_error = Fulfilled (Num (Finite 2)) \<and>
   snd (snd (retrieve host_offline [] page_one)) =
     Fulfilled (Some \<lparr>previousPage = Undefined, nextPage = Undefined, ids = [], opened = [],
       closedPrimaryCount = 0\<rparr>)"
proof -
  have "snd (snd (retrieve host_offline [] page_one)) = Fulfilled (Some (aggregate_of [] []))"
    by (rule retrieve_no_current) (simp_all add: results_offline)
  moreover have "targetPage page_one = Finite 1"
    by (simp add: targetPage_def currentPage_def page_one_def)
  moreover have "fails (fetch host_offline (length []) (formApiRequest page_one))"
    by (simp add: host_offline_def)
  ultimately show ?thesis
    by (simp add: results_offline hint_page aggregate_of_def)
qed

subsection \<open>C6: the probe of page 0\<close>

text \<open>
  C6. When the target page is 1, the probe of the page before is a request for page 0.
  \<open>peek\<close> writes page 0 into the options, forms the address with offset -10, and its
  promise is what \<open>fetch\<close> answers for exactly that address. In \<open>requestPages\<close> that
  address is the second one sent, and the promise returned joins the three requests, of
  which the second is this one: nothing skips the probe or changes its offset.
\<close>

theorem probe_before_page_one:
  assumes "currentPage opts = PageNumber (Finite 1)"
  shows "peek h s opts (num_sub (to_number (currentPage opts)) (Finite 1)) =
           (opts\<lparr>page := PageNumber (Finite 0)\<rparr>,
            s @ [URI path \<lparr>limit = Finite 10, offset = Finite (- 10), color = resolveColor opts\<rparr>],
            catch_p (then_p (fetch h (length s)
              (URI path \<lparr>limit = Finite 10, offset = Finite (- 10), color = resolveColor opts\<rparr>))
              on_response) log_error) \<and>
         fst (snd (requestPages h sent opts)) ! Suc (length sent) =
           URI path \<lparr>limit = Finite 10, offset = Finite (- 10), color = resolveColor opts\<rparr> \<and>
         previous_result h sent opts =
           catch_p (then_p (fetch h (Suc (length sent))
             (URI path \<lparr>limit = Finite 10, offset = Finite (- 10), color = resolveColor opts\<rparr>))
             on_response) log_error \<and>
         snd (snd (requestPages h sent opts)) =
           catch_p (then_p (all_p
             [catch_p (then_p (fetch h (length sent) (formApiRequest opts)) on_response) log_error,
              catch_p (then_p
                (catch_p (then_p (fetch h (Suc (length sent))
                   (URI path \<lparr>limit = Finite 10, offset = Finite (- 10),
                               color = resolveColor opts\<rparr>)) on_response) log_error)
                (page_if_records h (Finite 0))) log_error,
              catch_p (then_p
                (catch_p (then_p (fetch h (Suc (Suc (length sent)))
                   (URI path \<lparr>limit = Finite 10, offset = Finite 10,
                               color = resolveColor opts\<rparr>)) on_response) log_error)
                (page_if_records h (Finite 2))) log_error])
             attach_pages) log_error"
proof -
  have t: "targetPage opts = Finite 1"
    using assms by (simp add: targetPage_def)
  have u: "formApiRequest (previous_options opts) =
      URI path \<lparr>limit = Finite 10, offset = Finite (- 10), color = resolveColor opts\<rparr>"
    by (simp add: previous_options_def t formApiRequest_def
        generateApiGetRequest_def resolvePayload_def resolveLimit_def resolveOffset_def
        calculateOffset_def default_limit_def resolveColor_def)
  have v: "formApiRequest (next_options opts) =
      URI path \<lparr>limit = Finite 10, offset = Finite 10, color = resolveColor opts\<rparr>"
    by (simp add: next_options_def t formApiRequest_def
        generateApiGetRequest_def resolvePayload_def resolveLimit_def resolveOffset_def
        calculateOffset_def default_limit_def resolveColor_def)
  have w: "num_sub (to_number (currentPage opts)) (Finite 1) = Finite 0"
    using assms by simp
  have "peek h s opts (Finite 0) =
      (opts\<lparr>page := PageNumber (Finite 0)\<rparr>, s @ [formApiRequest (previous_options opts)],
       catch_p (then_p (fetch h (length s) (formApiRequest (previous_options opts)))
         on_response) log_error)"
    by (simp add: peek_def Let_def request_def previous_options_def t)
  moreover have "fst (snd (requestPages h sent opts)) ! Suc (length sent) =
      formApiRequest (previous_options opts)"
    by (simp add: requestPages_eq nth_append)
  moreover have "previous_result h sent opts =
      catch_p (then_p (fetch h (Suc (length sent)) (formApiRequest (previous_options opts)))
        on_response) log_error"
    by (simp add: previous_result_def request_result)
  moreover have "snd (snd (requestPages h sent opts)) =
      catch_p (then_p (all_p
        [catch_p (then_p (fetch h (length sent) (formApiRequest opts)) on_response) log_error,
         catch_p (then_p
           (catch_p (then_p (fetch h (Suc (length sent))
              (formApiRequest (previous_options opts))) on_response) log_error)
           (page_if_records h (Finite 0))) log_error,
         catch_p (then_p
           (catch_p (then_p (fetch h (Suc (Suc (length sent)))
              (formApiRequest (next_options opts))) on_response) log_error)
           (page_if_records h (Finite 2))) log_error])
        attach_pages) log_error"
    by (simp add: requestPages_eq current_result_def previous_result_def next_result_def
        request_result t)
  ultimately show ?thesis by (simp only: u v w)
qed

text \<open>A call for page 1 with no colours.\<close>

theorem probe_before_page_one_witness:
  "currentPage page_one = PageNumber (Finite 1) \<and>
   peek host_pages [] page_one (Finite 0) =
     (\<lparr>page = PageNumber (Finite 0), colors = None\<rparr>,
      [URI path \<lparr>limit = Finite 10, offset = Finite (- 10), color = []\<rparr>],
      catch_p (then_p (fetch host_pages 0
        (URI path \<lparr>limit = Finite 10, offset = Finite (- 10), color = []\<rparr>))
        on_response) log_error) \<and>
   fst (snd (requestPages host_pages [] page_one)) ! Suc (length []) =
     URI path \<lparr>limit = Finite 10, offset = Finite (- 10), color = []\<rparr>"
proof -
  have c: "currentPage page_one = PageNumber (Finite 1)"
    by (simp add: currentPage_def page_one_def)
  have r: "resolveColor page_one = []"
    by (simp add: resolveColor_def page_one_def default_colors_def)
  have w: "num_sub (to_number (currentPage page_one)) (Finite 1) = Finite 0"
    by (simp add: c)
  have p: "page_one\<lparr>page := PageNumber (Finite 0)\<rparr> = \<lparr>page = PageNumber (Finite 0), colors = None\<rparr>"
    by (simp add: page_one_def)
  from probe_before_page_one [OF c, of host_pages "[]" "[]"] c show ?thesis
    by (simp only: r w p list.size(3)) simp
qed

subsection \<open>C7: the count of closed records of a primary colour\<close>

text \<open>
  C7. For every page of records, whatever properties the page carries,
  \<open>closedPrimaryCount\<close> is the number of records whose \<open>disposition\<close> is the string
  \<open>closed\<close> and whose \<open>color\<close> is one of the strings \<open>red\<close>, \<open>blue\<close>, \<open>yellow\<close>; for a
  page of no records it is 0. This holds of one application of \<open>resolveResponse\<close> and of
  \<open>transformResponse\<close>.
\<close>

theorem closed_primary_count:
  assumes "list_all is_object xs"
  shows "\<exists>r a. resolveResponse (Arr xs ps) opts = Inr (r, a) \<and>
      transformResponse (Arr xs ps) opts = Inr a \<and>
      closedPrimaryCount a =
        length (filter (\<lambda>x. field x ''disposition'' = Str ''closed'' \<and>
                  field x ''color'' \<in> {Str ''red'', Str ''blue'', Str ''yellow''}) xs) \<and>
      (xs = [] \<longrightarrow> closedPrimaryCount a = 0)"
proof -
  have "closedPrimaryCount (aggregate_of xs ps) =
      length (filter (\<lambda>x. field x ''disposition'' = Str ''closed'' \<and>
                field x ''color'' \<in> {Str ''red'', Str ''blue'', Str ''yellow''}) xs)"
    by (simp add: aggregate_of_def primary_def)
  moreover have "xs = [] \<longrightarrow> closedPrimaryCount (aggregate_of xs ps) = 0"
    by (simp add: aggregate_of_def)
  ultimately show ?thesis
    using resolveResponse_objects [OF assms, of ps opts]
      transformResponse_objects [OF assms, of ps opts]
    by blast
qed

text \<open>Four records, two of them closed and blue.\<close>

theorem closed_primary_count_witness:
  "list_all is_object [red_open, blue_closed, green_closed, blue_closed] \<and>
   (\<exists>r a. resolveResponse (Arr [red_open, blue_closed, green_closed, blue_closed] []) page_two
             = Inr (r, a) \<and>
          closedPrimaryCount a = 2)"
proof -
  have o: "list_all is_object [red_open, blue_closed, green_closed, blue_closed]"
    by (simp add: red_open_object)
  have "length (filter (\<lambda>x. field x ''disposition'' = Str ''closed'' \<and>
                  field x ''color'' \<in> {Str ''red'', Str ''blue'', Str ''yellow''})
          [red_open, blue_closed, green_closed, blue_closed]) = 2"
    by (simp add: red_open_def blue_closed_def green_closed_def)
  moreover from closed_primary_count [OF o, of "[]" page_two] obtain r a
    where "resolveResponse (Arr [red_open, blue_closed, green_closed, blue_closed] []) page_two
             = Inr (r, a)"
      and "closedPrimaryCount a =
        length (filter (\<lambda>x. field x ''disposition'' = Str ''closed'' \<and>
                  field x ''color'' \<in> {Str ''red'', Str ''blue'', Str ''yellow''})
          [red_open, blue_closed, green_closed, blue_closed])"
    by blast
  ultimately have "resolveResponse (Arr [red_open, blue_closed, green_closed, blue_closed] [])
      page_two = Inr (r, a) \<and> closedPrimaryCount a = 2"
    by simp
  then have "\<exists>r a. resolveResponse (Arr [red_open, blue_closed, green_closed, blue_closed] [])
      page_two = Inr (r, a) \<and> closedPrimaryCount a = 2"
    by blast
  with o show ?thesis by simp
qed

subsection \<open>C8: the open records\<close>

text \<open>
  C8. For every page of records, \<open>open\<close> holds the records of the page whose
  \<open>disposition\<close> is the string \<open>open\<close>, in the order of the page: they are those records
  as amended, they agree with them on every property but \<open>isPrimary\<close>, and each carries
  \<open>isPrimary\<close>, true exactly when its \<open>color\<close> is \<open>red\<close>, \<open>blue\<close> or \<open>yellow\<close>.
\<close>

theorem open_records:
  assumes "list_all is_object xs"
  shows "\<exists>r a. resolveResponse (Arr xs ps) opts = Inr (r, a) \<and>
      transformResponse (Arr xs ps) opts = Inr a \<and>
      opened a = map amended (filter (\<lambda>x. field x ''disposition'' = Str ''open'') xs) \<and>
      (\<forall>k. k \<noteq> ''isPrimary'' \<longrightarrow>
         map (\<lambda>y. field y k) (opened a) =
         map (\<lambda>x. field x k) (filter (\<lambda>x. field x ''disposition'' = Str ''open'') xs)) \<and>
      list_all (\<lambda>y. field y ''isPrimary'' =
         Bool (field y ''color'' \<in> {Str ''red'', Str ''blue'', Str ''yellow''})) (opened a)"
proof -
  let ?os = "filter (\<lambda>x. field x ''disposition'' = Str ''open'') xs"
  have o: "opened (aggregate_of xs ps) = map amended ?os"
    by (simp add: aggregate_of_def)
  have f: "map (\<lambda>y. field y k) (map amended ?os) = map (\<lambda>x. field x k) ?os"
    if "k \<noteq> ''isPrimary''" for k
    using that by (simp add: field_amended)
  from assms have "list_all is_object ?os"
    by (simp add: list_all_iff)
  then have "list_all (\<lambda>y. field y ''isPrimary'' =
      Bool (field y ''color'' \<in> {Str ''red'', Str ''blue'', Str ''yellow''})) (map amended ?os)"
    by (simp add: list_all_iff field_isPrimary field_amended primary_def)
  with o f have "opened (aggregate_of xs ps) = map amended ?os \<and>
      (\<forall>k. k \<noteq> ''isPrimary'' \<longrightarrow>
         map (\<lambda>y. field y k) (opened (aggregate_of xs ps)) = map (\<lambda>x. field x k) ?os) \<and>
      list_all (\<lambda>y. field y ''isPrimary'' =
         Bool (field y ''color'' \<in> {Str ''red'', Str ''blue'', Str ''yellow''}))
        (opened (aggregate_of xs ps))"
    by simp
  with resolveResponse_objects [OF assms, of ps opts]
    transformResponse_objects [OF assms, of ps opts]
  show ?thesis by blast
qed

text \<open>Three records, the second of them open and red.\<close>

theorem open_records_witness:
  "list_all is_object [green_closed, red_open, blue_closed] \<and>
   (\<exists>r a. resolveResponse (Arr [green_closed, red_open, blue_closed] []) page_two = Inr (r, a) \<and>
      opened a = [Obj [(''id'', Num (Finite 1)), (''color'', Str ''red''),
                       (''disposition'', Str ''open''), (''isPrimary'', Bool True)]])"
proof -
  have o: "list_all is_object [green_closed, red_open, blue_closed]"
    by (simp add: red_open_object)
  have "map amended (filter (\<lambda>x. field x ''disposition'' = Str ''open'')
          [green_closed, red_open, blue_closed]) =
        [Obj [(''id'', Num (Finite 1)), (''color'', Str ''red''),
              (''disposition'', Str ''open''), (''isPrimary'', Bool True)]]"
    by (simp add: red_open_def blue_closed_def green_closed_def primary_def)
  moreover from open_records [OF o, of "[]" page_two] obtain r a
    where "resolveResponse (Arr [green_closed, red_open, blue_closed] []) page_two = Inr (r, a)"
      and "opened a = map amended (filter (\<lambda>x. field x ''disposition'' = Str ''open'')
          [green_closed, red_open, blue_closed])"
    by blast
  ultimately have "resolveResponse (Arr [green_closed, red_open, blue_closed] []) page_two =
      Inr (r, a) \<and>
      opened a = [Obj [(''id'', Num (Finite 1)), (''color'', Str ''red''),
                       (''disposition'', Str ''open''), (''isPrimary'', Bool True)]]"
    by simp
  then have "\<exists>r a. resolveResponse (Arr [green_closed, red_open, blue_closed] []) page_two =
      Inr (r, a) \<and>
      opened a = [Obj [(''id'', Num (Finite 1)), (''color'', Str ''red''),
                       (''disposition'', Str ''open''), (''isPrimary'', Bool True)]]"
    by blast
  with o show ?thesis by simp
qed

subsection \<open>C9: the caller's options\<close>

text \<open>
  C9. \<open>peek\<close> writes the page it requests into the options object it is given. After
  \<open>requestPages\<close>, and so after \<open>retrieve\<close>, the caller's \<open>options.page\<close> is the target
  page plus one: for an integer page \<open>n\<close> other than 0 and of magnitude below \<open>2^53\<close>,
  where the doubles add exactly, it is \<open>n + 1\<close>, not \<open>n\<close>.
\<close>

theorem options_page_overwritten:
  "fst (peek h sent opts pg) = opts\<lparr>page := PageNumber pg\<rparr> \<and>
   fst (requestPages h sent opts) =
     opts\<lparr>page := PageNumber (num_add (to_number (currentPage opts)) (Finite 1))\<rparr> \<and>
   fst (retrieve h sent opts) =
     opts\<lparr>page := PageNumber (num_add (to_number (currentPage opts)) (Finite 1))\<rparr> \<and>
   (page opts = PageNumber (Finite n) \<longrightarrow> n \<noteq> 0 \<longrightarrow> \<bar>n\<bar> < 9007199254740992 \<longrightarrow>
      page (fst (retrieve h sent opts)) = PageNumber (Finite (n + 1)) \<and>
      page (fst (retrieve h sent opts)) \<noteq> page opts)"
proof -
  have "page (fst (retrieve h sent opts)) = PageNumber (Finite (n + 1)) \<and>
      page (fst (retrieve h sent opts)) \<noteq> page opts"
    if p: "page opts = PageNumber (Finite n)" and z: "n \<noteq> 0" and b: "\<bar>n\<bar> < 9007199254740992"
  proof -
    from p z have "to_number (currentPage opts) = Finite n"
      by (simp add: currentPage_def)
    then have "page (fst (retrieve h sent opts)) = PageNumber (Finite (n + 1))"
      by (simp add: retrieve_eq next_options_def targetPage_def successor_in_range [OF b]
          del: num_add.simps)
    with p show ?thesis by simp
  qed
  then show ?thesis
    by (simp add: retrieve_eq requestPages_eq next_options_def targetPage_def peek_def Let_def)
qed

text \<open>A call for page 2 leaves page 3 in the options.\<close>

theorem options_page_overwritten_witness:
  "page page_two = PageNumber (Finite 2) \<and> (2::int) \<noteq> 0 \<and> \<bar>2 :: int\<bar> < 9007199254740992 \<and>
   page (fst (retrieve host_pages [] page_two)) = PageNumber (Finite 3) \<and>
   fst (retrieve host_pages [] page_two) = \<lparr>page = PageNumber (Finite 3), colors = Some []\<rparr>"
  using options_page_overwritten
    [where h = host_pages and sent = "[]" and opts = page_two and n = 2]
  by (simp add: page_two_def currentPage_def)

subsection \<open>C10: the transformation applied twice\<close>

text \<open>
  C10. \<open>transformResponse\<close> applies \<open>resolveResponse\<close> twice and returns the second
  result, which is the aggregate of a single application: wherever \<open>resolveResponse\<close>
  succeeds, applying it again to the response it has amended gives the same response and
  the same aggregate, and where it throws, \<open>transformResponse\<close> throws the same error.
\<close>

theorem transformResponse_single:
  "transformResponse resp opts = bind_e (resolveResponse resp opts) (\<lambda>(r, a). Inr a) \<and>
   (resolveResponse resp opts = Inr (r, a) \<longrightarrow> resolveResponse r opts = Inr (r, a))"
proof -
  have "transformResponse resp opts = bind_e (resolveResponse resp opts) (\<lambda>(r, a). Inr a)"
  proof (cases "resolveResponse resp opts")
    case (Inl e)
    then show ?thesis by (simp add: transformResponse_def)
  next
    case (Inr ra)
    obtain r' a' where ra: "ra = (r', a')" by (cases ra)
    with Inr have "resolveResponse r' opts = Inr (r', a')" by (simp add: resolveResponse_again)
    with Inr ra show ?thesis by (simp add: transformResponse_def)
  qed
  then show ?thesis by (simp add: resolveResponse_again)
qed

text \<open>A page of two records, transformed once and twice.\<close>

theorem transformResponse_single_witness:
  "resolveResponse (Arr [red_open, blue_closed] []) page_two =
     Inr (Arr [amended red_open, amended blue_closed] [], aggregate_of [red_open, blue_closed] []) \<and>
   resolveResponse (Arr [amended red_open, amended blue_closed] []) page_two =
     Inr (Arr [amended red_open, amended blue_closed] [], aggregate_of [red_open, blue_closed] []) \<and>
   transformResponse (Arr [red_open, blue_closed] []) page_two =
     Inr \<lparr>previousPage = Undefined, nextPage = Undefined,
          ids = [Num (Finite 1), Num (Finite 3)],
          opened = [Obj [(''id'', Num (Finite 1)), (''color'', Str ''red''),
                       (''disposition'', Str ''open''), (''isPrimary'', Bool True)]],
          closedPrimaryCount = 1\<rparr>"
proof -
  have o: "list_all is_object [red_open, blue_closed]"
    by (simp add: red_open_object)
  have r: "resolveResponse (Arr [red_open, blue_closed] []) page_two =
     Inr (Arr [amended red_open, amended blue_closed] [], aggregate_of [red_open, blue_closed] [])"
    using resolveResponse_objects [OF o, of "[]" page_two] by simp
  have s: "aggregate_of [red_open, blue_closed] [] =
      \<lparr>previousPage = Undefined, nextPage = Undefined,
          ids = [Num (Finite 1), Num (Finite 3)],
          opened = [Obj [(''id'', Num (Finite 1)), (''color'', Str ''red''),
                       (''disposition'', Str ''open''), (''isPrimary'', Bool True)]],
          closedPrimaryCount = 1\<rparr>"
    by (simp add: aggregate_of_def red_open_def blue_closed_def primary_def)
  from transformResponse_single [where resp = "Arr [red_open, blue_closed] []" and opts = page_two
      and r = "Arr [amended red_open, amended blue_closed] []"
      and a = "aggregate_of [red_open, blue_closed] []"] r s
  show ?thesis by simp
qed

end
